theory Spec2Isabelle
  imports Complex_Main "HOL-Library.AList" "HOL-Library.Char_ord" "HOL-Library.List_Lexorder"
    "HOL-Library.Multiset"
begin

section \<open>Python values shared by the modules\<close>

text \<open>
  Exceptions are values: every function that can raise returns \<open>error + 'a\<close>, with
  \<open>Inl\<close> carrying the exception class.
\<close>

datatype error = KeyError | IndexError | ValueError | TypeError | AttributeError
  | ZeroDivisionError | ParseError

definition bind_err :: "error + 'a \<Rightarrow> ('a \<Rightarrow> error + 'b) \<Rightarrow> error + 'b" where
  "bind_err m f = (case m of Inl e \<Rightarrow> Inl e | Inr x \<Rightarrow> f x)"

text \<open>
  A dictionary with string keys is an association list read through \<open>map_of\<close>; the
  list order is the insertion order. \<open>d[k]\<close> raises KeyError on a missing key.
\<close>

type_synonym attrib = "(string \<times> string) list"

definition getitem :: "(string \<times> 'v) list \<Rightarrow> string \<Rightarrow> error + 'v" where
  "getitem d k = (case map_of d k of None \<Rightarrow> Inl KeyError | Some v \<Rightarrow> Inr v)"

text \<open>\<open>s[i]\<close> on a string: a negative index counts from the end, out of range raises.\<close>

definition py_index :: "'a list \<Rightarrow> int \<Rightarrow> error + 'a" where
  "py_index s i =
     (if 0 \<le> i \<and> i < int (length s) then Inr (s ! nat i)
      else if - int (length s) \<le> i \<and> i < 0 then Inr (s ! nat (int (length s) + i))
      else Inl IndexError)"

text \<open>
  \<open>int(s)\<close> on a string: surrounding whitespace is stripped, one sign is allowed, then
  decimal digits, where single underscores may separate digits. Anything else raises
  ValueError. (Only the ASCII whitespace and digits are covered.)
\<close>

definition is_space :: "char \<Rightarrow> bool" where
  "is_space c = (let n = (of_char c :: nat) in (9 \<le> n \<and> n \<le> 13) \<or> (28 \<le> n \<and> n \<le> 32))"

definition is_digit :: "char \<Rightarrow> bool" where
  "is_digit c = (let n = (of_char c :: nat) in 48 \<le> n \<and> n \<le> 57)"

definition digit_val :: "char \<Rightarrow> nat" where
  "digit_val c = of_char c - 48"

definition strip :: "string \<Rightarrow> string" where
  "strip s = rev (dropWhile is_space (rev (dropWhile is_space s)))"

fun parse_digits :: "string \<Rightarrow> nat \<Rightarrow> nat option" where
  "parse_digits [] acc = Some acc"
| "parse_digits (c # cs) acc =
     (if is_digit c then parse_digits cs (10 * acc + digit_val c)
      else if c = CHR ''_'' then
        (case cs of [] \<Rightarrow> None
         | d # ds \<Rightarrow> if is_digit d then parse_digits cs acc else None)
      else None)"

definition parse_unsigned :: "string \<Rightarrow> nat option" where
  "parse_unsigned s =
     (case s of [] \<Rightarrow> None | c # cs \<Rightarrow> if is_digit c then parse_digits s 0 else None)"

definition py_int :: "string \<Rightarrow> error + int" where
  "py_int s =
     (case strip s of
        [] \<Rightarrow> Inl ValueError
      | c # cs \<Rightarrow>
          if c = CHR ''-'' then
            (case parse_unsigned cs of None \<Rightarrow> Inl ValueError | Some n \<Rightarrow> Inr (- int n))
          else if c = CHR ''+'' then
            (case parse_unsigned cs of None \<Rightarrow> Inl ValueError | Some n \<Rightarrow> Inr (int n))
          else
            (case parse_unsigned (c # cs) of None \<Rightarrow> Inl ValueError | Some n \<Rightarrow> Inr (int n)))"

text \<open>
  A list comprehension \<open>[f(x) for x in xs if c(x)]\<close>: for each element the condition is
  evaluated first, then the expression; the first exception ends the comprehension.
\<close>

fun comprehension :: "('a \<Rightarrow> error + bool) \<Rightarrow> ('a \<Rightarrow> error + 'b) \<Rightarrow> 'a list \<Rightarrow> error + 'b list" where
  "comprehension c f [] = Inr []"
| "comprehension c f (x # xs) =
     bind_err (c x) (\<lambda>b.
       if b then
         bind_err (f x) (\<lambda>y. bind_err (comprehension c f xs) (\<lambda>ys. Inr (y # ys)))
       else comprehension c f xs)"

text \<open>
  A dictionary comprehension \<open>{k: f(k) for k in ks}\<close>: entries are stored one by one, a
  repeated key overwrites the earlier entry in place.
\<close>

fun dict_comp :: "('k \<Rightarrow> error + 'v) \<Rightarrow> ('k \<times> 'v) list \<Rightarrow> 'k list \<Rightarrow> error + ('k \<times> 'v) list" where
  "dict_comp f m [] = Inr m"
| "dict_comp f m (k # ks) =
     bind_err (f k) (\<lambda>v. dict_comp f (AList.update k v m) ks)"


section \<open>networks/base.py: traffic-light nodes, approaches, states, durations, phases\<close>

text \<open>
  \<open>Network\<close> keeps the node, edge and connection records read from the net file, each a
  dictionary of XML attributes, and the traffic-light properties
  \<open>traffic_lights.get_properties()\<close>: per node id one dictionary with the keys
  \<open>type\<close>, \<open>programID\<close> and \<open>phases\<close>, the latter a list of attribute dictionaries
  with \<open>state\<close> and \<open>duration\<close>. The properties below are what the first access
  computes (and then caches).
\<close>

datatype propval = PStr string | PInt int | PPhases "attrib list"

type_synonym props = "(string \<times> propval) list"

record network =
  nodes :: "attrib list"
  edges :: "attrib list"
  connections :: "attrib list"
  configs :: "(string \<times> props) list"

text \<open>\<open>[n['id'] for n in self.nodes if n['type'] == 'traffic_light']\<close>\<close>

definition tls_ids :: "network \<Rightarrow> error + string list" where
  "tls_ids net =
     comprehension (\<lambda>n. bind_err (getitem n ''type'') (\<lambda>t. Inr (t = ''traffic_light'')))
       (\<lambda>n. getitem n ''id'') (nodes net)"

text \<open>\<open>{nid: [e['id'] for e in self.edges if e['to'] == nid] for nid in self.tls_ids}\<close>\<close>

definition approaches_node :: "network \<Rightarrow> string \<Rightarrow> error + string list" where
  "approaches_node net nid =
     comprehension (\<lambda>e. bind_err (getitem e ''to'') (\<lambda>t. Inr (t = nid)))
       (\<lambda>e. getitem e ''id'') (edges net)"

definition approaches :: "network \<Rightarrow> error + (string \<times> string list) list" where
  "approaches net = bind_err (tls_ids net) (dict_comp (approaches_node net) [])"

text \<open>
  The filter \<open>fn(x)\<close> of \<open>states\<close> and \<open>durations\<close>:
  \<open>x['type'] == 'static' and x['programID'] == 1\<close>; \<open>and\<close> reads the program id only
  when the type matched.
\<close>

definition static_program_1 :: "props \<Rightarrow> error + bool" where
  "static_program_1 x =
     bind_err (getitem x ''type'') (\<lambda>t.
       if t = PStr ''static'' then bind_err (getitem x ''programID'') (\<lambda>p. Inr (p = PInt 1))
       else Inr False)"

text \<open>
  \<open>[expr(p) for p in configs[nid]['phases'] if fn(configs[nid])]\<close>, the shape shared by
  \<open>states\<close> and \<open>durations\<close>. Iterating a string yields its characters, on which
  \<open>p['state']\<close> is a TypeError; an integer is not iterable.
\<close>

definition program_entries :: "network \<Rightarrow> (attrib \<Rightarrow> error + 'a) \<Rightarrow> string \<Rightarrow> error + 'a list" where
  "program_entries net expr nid =
     bind_err (getitem (configs net) nid) (\<lambda>cfg.
       bind_err (getitem cfg ''phases'') (\<lambda>v.
         case v of
           PPhases ps \<Rightarrow> comprehension (\<lambda>p. static_program_1 cfg) expr ps
         | PStr s \<Rightarrow> comprehension (\<lambda>c. static_program_1 cfg) (\<lambda>c. Inl TypeError) s
         | PInt n \<Rightarrow> Inl TypeError))"

definition states_node :: "network \<Rightarrow> string \<Rightarrow> error + string list" where
  "states_node net nid = program_entries net (\<lambda>p. getitem p ''state'') nid"

definition states :: "network \<Rightarrow> error + (string \<times> string list) list" where
  "states net = bind_err (tls_ids net) (dict_comp (states_node net) [])"

definition durations_node :: "network \<Rightarrow> string \<Rightarrow> error + int list" where
  "durations_node net nid =
     program_entries net (\<lambda>p. bind_err (getitem p ''duration'') py_int) nid"

definition durations :: "network \<Rightarrow> error + (string \<times> int list) list" where
  "durations net = bind_err (tls_ids net) (dict_comp (durations_node net) [])"

text \<open>
  \<open>phases\<close>. The connections of a node are those with \<open>x.get('tl') == nid\<close> that carry a
  \<open>linkIndex\<close>; \<open>links\<close> maps \<open>int(conn['linkIndex'])\<close> to \<open>conn['from']\<close>, a later
  connection with the same index overwriting the earlier one.
\<close>

definition controlled_by :: "string \<Rightarrow> attrib \<Rightarrow> bool" where
  "controlled_by nid x = (map_of x ''tl'' = Some nid \<and> map_of x ''linkIndex'' \<noteq> None)"

fun build_links :: "(int \<times> string) list \<Rightarrow> attrib list \<Rightarrow> error + (int \<times> string) list" where
  "build_links m [] = Inr m"
| "build_links m (conn # conns) =
     (if map_of conn ''linkIndex'' \<noteq> None then
        bind_err (bind_err (getitem conn ''linkIndex'') py_int) (\<lambda>lnk.
          bind_err (getitem conn ''from'') (\<lambda>eid.
            build_links (AList.update lnk eid m) conns))
      else build_links m conns)"

text \<open>
  \<open>{eid for lnk, eid in links.items() if state[lnk] in ('G','g')}\<close>: the elements are
  collected in the order of the links; the set of the comprehension is the set of this
  list.
\<close>

definition components :: "(int \<times> string) list \<Rightarrow> string \<Rightarrow> error + string list" where
  "components links state =
     comprehension
       (\<lambda>(lnk, eid). bind_err (py_index state lnk) (\<lambda>c. Inr (c = CHR ''G'' \<or> c = CHR ''g'')))
       (\<lambda>(lnk, eid). Inr eid) links"

text \<open>
  The loop over the states of one node: \<open>acc\<close> is \<open>self._cached_phases[nid]\<close>, \<open>i\<close> the
  next phase index; a state with an empty set of components stores nothing.
\<close>

fun phases_loop ::
  "(int \<times> string) list \<Rightarrow> nat \<Rightarrow> (nat \<times> string list) list \<Rightarrow> string list
    \<Rightarrow> error + (nat \<times> string list) list" where
  "phases_loop links i acc [] = Inr acc"
| "phases_loop links i acc (state # rest) =
     bind_err (components links state) (\<lambda>comps.
       if set comps \<noteq> {} then
         phases_loop links (i + 1) (AList.update i (sorted_list_of_set (set comps)) acc) rest
       else phases_loop links i acc rest)"

definition phases_node ::
  "network \<Rightarrow> (string \<times> string list) list \<Rightarrow> string \<Rightarrow> error + (nat \<times> string list) list" where
  "phases_node net st nid =
     bind_err (getitem st nid) (\<lambda>ss.
       bind_err (build_links [] (filter (controlled_by nid) (connections net))) (\<lambda>links.
         phases_loop links 0 [] ss))"

definition phases :: "network \<Rightarrow> error + (string \<times> (nat \<times> string list) list) list" where
  "phases net =
     bind_err (tls_ids net) (\<lambda>ids.
       bind_err (states net) (\<lambda>st. dict_comp (phases_node net st) [] ids))"


text \<open>
  The network of the docstrings: one traffic-light node with four incoming approaches, ten
  controlled links and the static program 1 of four states. The variants change one
  part of it.
\<close>

definition intersection_net :: network where
  "intersection_net =
     \<lparr>nodes = [[(''id'', ''247123161''), (''type'', ''traffic_light'')],
               [(''id'', ''gneJ0''), (''type'', ''priority'')]],
      edges = [[(''id'', ''-238059324''), (''from'', ''gneJ0''), (''to'', ''247123161'')],
               [(''id'', ''-238059328''), (''from'', ''gneJ1''), (''to'', ''247123161'')],
               [(''id'', ''309265401''), (''from'', ''gneJ2''), (''to'', ''247123161'')],
               [(''id'', ''383432312''), (''from'', ''gneJ3''), (''to'', ''247123161'')],
               [(''id'', ''238059324''), (''from'', ''247123161''), (''to'', ''gneJ0'')]],
      connections =
        [[(''from'', ''-238059324''), (''to'', ''238059324''), (''tl'', ''247123161''), (''linkIndex'', ''0'')],
         [(''from'', ''-238059324''), (''to'', ''238059324''), (''tl'', ''247123161''), (''linkIndex'', ''1'')],
         [(''from'', ''309265401''), (''to'', ''238059324''), (''tl'', ''247123161''), (''linkIndex'', ''2'')],
         [(''from'', ''309265401''), (''to'', ''238059324''), (''tl'', ''247123161''), (''linkIndex'', ''3'')],
         [(''from'', ''309265401''), (''to'', ''238059324''), (''tl'', ''247123161''), (''linkIndex'', ''4'')],
         [(''from'', ''383432312''), (''to'', ''238059324''), (''tl'', ''247123161''), (''linkIndex'', ''5'')],
         [(''from'', ''383432312''), (''to'', ''238059324''), (''tl'', ''247123161''), (''linkIndex'', ''6'')],
         [(''from'', ''-238059328''), (''to'', ''238059324''), (''tl'', ''247123161''), (''linkIndex'', ''7'')],
         [(''from'', ''-238059328''), (''to'', ''238059324''), (''tl'', ''247123161''), (''linkIndex'', ''8'')],
         [(''from'', ''-238059328''), (''to'', ''238059324''), (''tl'', ''247123161''), (''linkIndex'', ''9'')],
         [(''from'', ''238059324''), (''to'', ''-238059324'')]],
      configs =
        [(''247123161'',
          [(''id'', PStr ''247123161''), (''type'', PStr ''static''), (''programID'', PInt 1),
           (''phases'', PPhases
              [[(''duration'', ''39''), (''state'', ''GGrrrGGrrr'')],
               [(''duration'', ''6''), (''state'', ''yyrrryyrrr'')],
               [(''duration'', ''39''), (''state'', ''rrGGGrrGGG'')],
               [(''duration'', ''6''), (''state'', ''rryyyrryyy'')]])])]\<rparr>"

definition unlinked_net :: network where
  "unlinked_net = intersection_net\<lparr>connections := []\<rparr>"

definition stray_net :: network where
  "stray_net = intersection_net\<lparr>connections :=
     [[(''from'', ''elsewhere''), (''tl'', ''247123161''), (''linkIndex'', ''0'')]]\<rparr>"

definition unregistered_net :: network where
  "unregistered_net = intersection_net\<lparr>configs := []\<rparr>"

definition actuated_net :: network where
  "actuated_net = intersection_net\<lparr>configs :=
     [(''247123161'',
       [(''id'', PStr ''247123161''), (''type'', PStr ''actuated''), (''programID'', PInt 1),
        (''phases'', PPhases [[(''duration'', ''39''), (''state'', ''GGrrrGGrrr'')]])])]\<rparr>"


section \<open>core/experiment.py: the snapshot check of the experiment runner\<close>

text \<open>
  The environment is supplied by the caller. Only the attributes the runner reads are
  kept; an optional attribute that the environment does not have is \<open>None\<close>. Numbers
  are rationals: the checks below only compare with zero.
\<close>

record environment =
  cycle_time :: "rat option"
  sim_step :: rat
  duration :: "rat option"
  env_step_counter :: rat

datatype 'q pyattr = AEnv environment | ABool bool | AStr string | APolicies "'q list option"
  | ANum rat | ANone

text \<open>
  An \<open>Experiment\<close> object is its instance dictionary, attribute name to value. The class
  defines the methods \<open>run\<close>, \<open>_is_save_step\<close>, \<open>_is_save_q_table\<close> and
  \<open>_is_swap_q_table\<close> and no data attribute, so \<open>self.a\<close> for any other name is a
  lookup in this dictionary, which raises AttributeError when the name was never assigned.
\<close>

type_synonym 'q experiment_obj = "(string \<times> 'q pyattr) list"

definition getattr :: "'q experiment_obj \<Rightarrow> string \<Rightarrow> error + 'q pyattr" where
  "getattr self a = (case map_of self a of None \<Rightarrow> Inl AttributeError | Some v \<Rightarrow> Inr v)"

definition py_truediv :: "rat \<Rightarrow> rat \<Rightarrow> error + rat" where
  "py_truediv a b = (if b = 0 then Inl ZeroDivisionError else Inr (a / b))"

definition py_mod :: "rat \<Rightarrow> rat \<Rightarrow> error + rat" where
  "py_mod a b = (if b = 0 then Inl ZeroDivisionError else Inr (a - of_int \<lfloor>a / b\<rfloor> * b))"

text \<open>
  \<open>Experiment.__init__(env, dir_path, train, policies)\<close>: the six assignments, in the
  order of the source. \<open>getattr(env, 'cycle_time', None)\<close> is the attribute or None,
  \<open>getattr(env, 'cycle_time', 1) / sim_step\<close> the cadence.
\<close>

definition Experiment_init ::
  "environment \<Rightarrow> string \<Rightarrow> bool \<Rightarrow> 'q list option \<Rightarrow> error + 'q experiment_obj" where
  "Experiment_init env dir_path train policies =
     (if \<not> train \<and> policies = None then Inl ValueError
      else
        bind_err (py_truediv (case cycle_time env of None \<Rightarrow> 1 | Some c \<Rightarrow> c) (sim_step env))
          (\<lambda>save_step. Inr
             [(''env'', AEnv env),
              (''train'', ABool train),
              (''dir_path'', AStr dir_path),
              (''Qs'', APolicies policies),
              (''cycle'', (case cycle_time env of None \<Rightarrow> ANone | Some c \<Rightarrow> ANum c)),
              (''save_step'', ANum save_step)]))"

text \<open>
  \<open>Experiment._is_save_step\<close>: with a cycle the environment's \<open>duration\<close> decides,
  otherwise \<open>self.step_counter % self.save_step == 0\<close>.
\<close>

definition is_save_step :: "'q experiment_obj \<Rightarrow> error + bool" where
  "is_save_step self =
     bind_err (getattr self ''cycle'') (\<lambda>cycle.
       if cycle \<noteq> ANone then
         bind_err (getattr self ''env'') (\<lambda>e.
           case e of
             AEnv env \<Rightarrow> (case duration env of None \<Rightarrow> Inl AttributeError
                          | Some d \<Rightarrow> Inr (d = 0))
           | _ \<Rightarrow> Inl AttributeError)
       else
         bind_err (getattr self ''step_counter'') (\<lambda>sc.
           bind_err (getattr self ''save_step'') (\<lambda>ss.
             case (sc, ss) of
               (ANum a, ANum b) \<Rightarrow> bind_err (py_mod a b) (\<lambda>r. Inr (r = 0))
             | _ \<Rightarrow> Inl TypeError)))"


section \<open>scenarios/base.py: the XML extractor, routes and edges\<close>

text \<open>
  An element of an \<open>ElementTree\<close>: tag, attribute dictionary, children in document
  order. The files on disk are a map from path to content: no entry when
  \<open>os.path.isfile\<close> is false, \<open>None\<close> for a file \<open>ET.parse\<close> rejects, the root
  element otherwise.
\<close>

datatype xml = Element (elem_tag: string) (elem_attrib: attrib) (elem_children: "xml list")

type_synonym files = "string \<rightharpoonup> xml option"

text \<open>\<open>os.path.join(a, b)\<close> on POSIX paths: an absolute \<open>b\<close> replaces \<open>a\<close>.\<close>

definition os_path_join :: "string \<Rightarrow> string \<Rightarrow> string" where
  "os_path_join a b =
     (case b of
        c # cs \<Rightarrow>
          if c = CHR ''/'' then b
          else if a = [] \<or> last a = CHR ''/'' then a @ b
          else a @ ''/'' @ b
      | [] \<Rightarrow> if a = [] \<or> last a = CHR ''/'' then a else a @ ''/'')"

text \<open>
  \<open>DIR = f'{ILURL_HOME}/data/networks/'\<close>, with the environment variable as the
  parameter \<open>home\<close>, and \<open>get_path\<close>.
\<close>

definition DIR :: "string \<Rightarrow> string" where
  "DIR home = home @ ''/data/networks/''"

definition get_path :: "string \<Rightarrow> string \<Rightarrow> string \<Rightarrow> string" where
  "get_path home network_id file_type =
     os_path_join (DIR home) (network_id @ ''/'' @ network_id @ ''.'' @ file_type @ ''.xml'')"

text \<open>\<open>s.split(sep)\<close> for a one-character separator: never the empty list.\<close>

fun split_on :: "char \<Rightarrow> string \<Rightarrow> string list" where
  "split_on sep [] = [[]]"
| "split_on sep (c # cs) =
     (if c = sep then [] # split_on sep cs
      else (case split_on sep cs of w # ws \<Rightarrow> (c # w) # ws | [] \<Rightarrow> [[c]]))"

text \<open>
  \<open>elem.findall(path)\<close> for the paths the module uses, tag names separated by \<open>/\<close>:
  each step keeps, element after element, the children with the tag of the step. (The
  wildcards, predicates and \<open>..\<close> of ElementPath are not covered.)
\<close>

definition child_step :: "string \<Rightarrow> xml list \<Rightarrow> xml list" where
  "child_step t es = concat (map (\<lambda>e. filter (\<lambda>c. elem_tag c = t) (elem_children e)) es)"

definition findall :: "xml \<Rightarrow> string \<Rightarrow> xml list" where
  "findall tree path = foldl (\<lambda>es t. child_step t es) [tree] (split_on CHR ''/'' path)"

text \<open>
  What the extractor emits: a bare string, or a dictionary whose values are attribute
  strings and, under \<open>{child_key}s\<close>, the list of the children's attribute
  dictionaries. \<open>get_edges\<close> later stores floats and an integer in the same
  dictionaries; the float type is a parameter.
\<close>

datatype 'f pyval = VStr string | VFloat 'f | VInt int | VDicts "attrib list"

datatype 'f entry = EStr string | EDict "(string \<times> 'f pyval) list"

text \<open>\<open>k in elem.attrib\<close> for an optional argument: \<open>None\<close> is never a key.\<close>

definition in_attrib :: "string option \<Rightarrow> attrib \<Rightarrow> bool" where
  "in_attrib k a = (case k of None \<Rightarrow> False | Some k' \<Rightarrow> map_of a k' \<noteq> None)"

definition attrib_dict :: "attrib \<Rightarrow> (string \<times> 'f pyval) list" where
  "attrib_dict a = map (\<lambda>(k, v). (k, VStr v)) a"

text \<open>
  The loop of \<open>get_generic_element\<close> over the matched elements; \<open>elements\<close> is the
  list built so far. \<open>elements[-1][f'{child_key}s'] = ...\<close> is an item assignment on the
  entry just appended, a TypeError when that entry is a string.
\<close>

fun extract_loop ::
  "string option \<Rightarrow> string option \<Rightarrow> string option \<Rightarrow> xml list \<Rightarrow> 'f entry list
    \<Rightarrow> error + 'f entry list" where
  "extract_loop ignore key child_key [] elements = Inr elements"
| "extract_loop ignore key child_key (elem # rest) elements =
     (if \<not> in_attrib ignore (elem_attrib elem) then
        (let appended =
           (if in_attrib key (elem_attrib elem)
            then EStr (the (map_of (elem_attrib elem) (the key)))
            else EDict (attrib_dict (elem_attrib elem)))
         in case child_key of
              None \<Rightarrow> extract_loop ignore key child_key rest (elements @ [appended])
            | Some ck \<Rightarrow>
                (case appended of
                   EStr s \<Rightarrow> Inl TypeError
                 | EDict d \<Rightarrow>
                     extract_loop ignore key child_key rest
                       (elements @
                        [EDict (AList.update (ck @ ''s'')
                                  (VDicts (map elem_attrib (findall elem ck))) d)])))
      else extract_loop ignore key child_key rest elements)"

definition get_generic_element ::
  "files \<Rightarrow> string \<Rightarrow> string \<Rightarrow> string \<Rightarrow> string \<Rightarrow> string option \<Rightarrow> string option
    \<Rightarrow> string option \<Rightarrow> error + 'f entry list" where
  "get_generic_element fs home network_id target file_type ignore key child_key =
     (case fs (get_path home network_id file_type) of
        None \<Rightarrow> Inr []
      | Some None \<Rightarrow> Inl ParseError
      | Some (Some tree) \<Rightarrow> extract_loop ignore key child_key (findall tree target) [])"


text \<open>
  \<open>get_routes\<close>. \<open>set(routes)\<close> hashes every emitted entry, a TypeError for a
  dictionary (a route element without \<open>edges\<close>). A set is iterated in an order the
  language does not fix: \<open>order\<close> is that order, applied to the distinct elements.
  \<open>1 / len(rou)\<close> is computed on rationals.
\<close>

definition route_strings :: "'f entry list \<Rightarrow> error + string list" where
  "route_strings es =
     comprehension (\<lambda>e. Inr True)
       (\<lambda>e. case e of EStr s \<Rightarrow> Inr s | EDict d \<Rightarrow> Inl TypeError) es"

fun dict_comp_items ::
  "('k \<Rightarrow> 'v \<Rightarrow> error + 'w) \<Rightarrow> ('k \<times> 'w) list \<Rightarrow> ('k \<times> 'v) list \<Rightarrow> error + ('k \<times> 'w) list" where
  "dict_comp_items f m [] = Inr m"
| "dict_comp_items f m ((k, v) # kvs) =
     bind_err (f k v) (\<lambda>w. dict_comp_items f (AList.update k w m) kvs)"

definition routes_from :: "string \<Rightarrow> string list list \<Rightarrow> error + string list list" where
  "routes_from k routes =
     comprehension (\<lambda>r. bind_err (py_index r 0) (\<lambda>origin. Inr (k = origin))) Inr routes"

definition equiprobable :: "string list list \<Rightarrow> error + (string list \<times> rat) list" where
  "equiprobable rou =
     comprehension (\<lambda>r. Inr True)
       (\<lambda>r. bind_err (py_truediv 1 (of_nat (length rou))) (\<lambda>p. Inr (r, p))) rou"

definition get_routes ::
  "(string list \<Rightarrow> string list) \<Rightarrow> files \<Rightarrow> string \<Rightarrow> string
    \<Rightarrow> error + (string \<times> (string list \<times> rat) list) list" where
  "get_routes order fs home network_id =
     bind_err (get_generic_element fs home network_id ''vehicle/route'' ''rou''
                 None (Some ''edges'') None :: error + unit entry list) (\<lambda>elements.
       bind_err (route_strings elements) (\<lambda>strs.
         let routes = map (split_on CHR '' '') (order (remdups strs)) in
         bind_err (comprehension (\<lambda>rou. Inr True) (\<lambda>rou. py_index rou 0) routes) (\<lambda>firsts.
           bind_err (dict_comp (\<lambda>k. routes_from k routes) [] (order (remdups firsts)))
             (dict_comp_items (\<lambda>k rou. equiprobable rou) []))))"

text \<open>
  \<open>get_edges\<close>. \<open>float(s)\<close> and the comparison \<open>>\<close> of \<open>max\<close> are parameters:
  \<open>pfloat\<close> gives no value where \<open>float\<close> raises ValueError; \<open>max\<close> keeps the first
  item and replaces it by each later item that is greater. The network identifier of the
  call to the extractor is the literal \<open>'intersection'\<close>.
\<close>

definition py_max :: "('f \<Rightarrow> 'f \<Rightarrow> bool) \<Rightarrow> 'f list \<Rightarrow> error + 'f" where
  "py_max gt xs =
     (case xs of [] \<Rightarrow> Inl ValueError
      | x # rest \<Rightarrow> Inr (foldl (\<lambda>m y. if gt y m then y else m) x rest))"

definition get_lanes :: "(string \<times> 'f pyval) list \<Rightarrow> error + attrib list" where
  "get_lanes e =
     bind_err (getitem e ''lanes'') (\<lambda>v. case v of VDicts ls \<Rightarrow> Inr ls | _ \<Rightarrow> Inl TypeError)"

definition lane_values :: "(string \<Rightarrow> 'f option) \<Rightarrow> string \<Rightarrow> attrib list \<Rightarrow> error + 'f list" where
  "lane_values pfloat a lanes =
     comprehension (\<lambda>lane. Inr True)
       (\<lambda>lane. bind_err (getitem lane a)
          (\<lambda>s. case pfloat s of None \<Rightarrow> Inl ValueError | Some x \<Rightarrow> Inr x)) lanes"

definition edge_update ::
  "(string \<Rightarrow> 'f option) \<Rightarrow> ('f \<Rightarrow> 'f \<Rightarrow> bool) \<Rightarrow> 'f entry \<Rightarrow> error + 'f entry" where
  "edge_update pfloat gt e =
     (case e of
        EStr s \<Rightarrow> Inl TypeError
      | EDict d \<Rightarrow>
          bind_err (get_lanes d) (\<lambda>l1.
          bind_err (lane_values pfloat ''speed'' l1) (\<lambda>speeds.
          bind_err (py_max gt speeds) (\<lambda>speed.
            let d1 = AList.update ''speed'' (VFloat speed) d in
            bind_err (get_lanes d1) (\<lambda>l2.
            bind_err (lane_values pfloat ''length'' l2) (\<lambda>lengths.
            bind_err (py_max gt lengths) (\<lambda>len.
              let d2 = AList.update ''length'' (VFloat len) d1 in
              bind_err (get_lanes d2) (\<lambda>l3.
                let d3 = AList.update ''numLanes'' (VInt (int (length l3))) d2 in
                Inr (EDict (AList.delete ''lanes'' d3))))))))))"

definition get_edges ::
  "(string \<Rightarrow> 'f option) \<Rightarrow> ('f \<Rightarrow> 'f \<Rightarrow> bool) \<Rightarrow> files \<Rightarrow> string \<Rightarrow> string
    \<Rightarrow> error + 'f entry list" where
  "get_edges pfloat gt fs home network_id =
     bind_err (get_generic_element fs home ''intersection'' ''edge'' ''net''
                 (Some ''function'') None (Some ''lane''))
       (comprehension (\<lambda>e. Inr True) (edge_update pfloat gt))"

text \<open>
  Files for the examples: a route file of four vehicles over three distinct routes, and a
  directory that holds the net file of the network \<open>grid\<close> only.
\<close>

definition rou_xml :: xml where
  "rou_xml = Element ''routes'' []
     [Element ''vehicle'' [(''id'', ''0''), (''depart'', ''0.00'')]
        [Element ''route'' [(''edges'', ''a b'')] []],
      Element ''vehicle'' [(''id'', ''1''), (''depart'', ''1.00'')]
        [Element ''route'' [(''edges'', ''a c'')] []],
      Element ''vehicle'' [(''id'', ''2''), (''depart'', ''2.00'')]
        [Element ''route'' [(''edges'', ''a b'')] []],
      Element ''vehicle'' [(''id'', ''3''), (''depart'', ''3.00'')]
        [Element ''route'' [(''edges'', ''d b'')] []]]"

definition rou_files :: files where
  "rou_files = [''/opt/ilurl/data/networks/intersection/intersection.rou.xml'' \<mapsto> Some rou_xml]"

definition grid_xml :: xml where
  "grid_xml = Element ''net'' []
     [Element ''edge'' [(''id'', '':c_0''), (''function'', ''internal'')]
        [Element ''lane'' [(''id'', '':c_0_0''), (''speed'', ''13.89''), (''length'', ''9.03'')] []],
      Element ''edge'' [(''id'', ''left0''), (''from'', ''w''), (''to'', ''c'')]
        [Element ''lane'' [(''id'', ''left0_0''), (''speed'', ''13.89''), (''length'', ''100.00'')] [],
         Element ''lane'' [(''id'', ''left0_1''), (''speed'', ''13.89''), (''length'', ''100.00'')] []],
      Element ''junction'' [(''id'', ''c''), (''type'', ''traffic_light'')] []]"

definition grid_files :: files where
  "grid_files = [''/opt/ilurl/data/networks/grid/grid.net.xml'' \<mapsto> Some grid_xml]"


section \<open>Theorems\<close>

subsection \<open>Exceptions, comprehensions and dictionaries\<close>


lemma bind_err_Inl [simp]: "bind_err (Inl e) f = Inl e"
  by (simp add: bind_err_def)

lemma bind_err_Inr [simp]: "bind_err (Inr x) f = f x"
  by (simp add: bind_err_def)

lemma bind_err_eq_Inr: "bind_err m f = Inr y \<longleftrightarrow> (\<exists>x. m = Inr x \<and> f x = Inr y)"
  by (cases m) simp_all

lemma getitem_eq_Inr: "getitem d k = Inr v \<longleftrightarrow> map_of d k = Some v"
  by (simp add: getitem_def split: option.splits)

lemma comprehension_filter:
  "comprehension c f xs = Inr ys \<Longrightarrow> map Inr ys = map f (filter (\<lambda>x. c x = Inr True) xs)"
proof (induction xs arbitrary: ys)
  case Nil
  then show ?case by simp
next
  case (Cons x xs)
  from Cons.prems obtain b where b: "c x = Inr b"
    by (auto simp: bind_err_eq_Inr)
  show ?case
  proof (cases b)
    case True
    with Cons.prems b obtain y ys' where "f x = Inr y" "comprehension c f xs = Inr ys'" "ys = y # ys'"
      by (auto simp: bind_err_eq_Inr)
    with Cons.IH [of ys'] b True show ?thesis by simp
  next
    case False
    with Cons.prems b have "comprehension c f xs = Inr ys" by simp
    with Cons.IH [of ys] b False show ?thesis by simp
  qed
qed

lemma comprehension_length_filter:
  assumes "comprehension c f xs = Inr ys"
  shows "length ys = length (filter (\<lambda>x. c x = Inr True) xs)"
proof -
  have "length (map Inr ys :: (error + _) list) = length (map f (filter (\<lambda>x. c x = Inr True) xs))"
    using comprehension_filter [OF assms] by simp
  then show ?thesis by simp
qed

lemma comprehension_length_le: "comprehension c f xs = Inr ys \<Longrightarrow> length ys \<le> length xs"
  by (simp add: comprehension_length_filter)

lemma comprehension_mem:
  assumes "comprehension c f xs = Inr ys" "y \<in> set ys"
  shows "\<exists>x \<in> set xs. c x = Inr True \<and> f x = Inr y"
proof -
  from assms(2) have "Inr y \<in> set (map Inr ys :: (error + _) list)" by simp
  then have "Inr y \<in> set (map f (filter (\<lambda>x. c x = Inr True) xs))"
    using comprehension_filter [OF assms(1)] by simp
  then show ?thesis by auto
qed

lemma comprehension_returns:
  "(\<forall>x \<in> set xs. \<exists>b. c x = Inr b) \<Longrightarrow> (\<forall>x \<in> set xs. c x = Inr True \<longrightarrow> (\<exists>y. f x = Inr y))
    \<Longrightarrow> \<exists>ys. comprehension c f xs = Inr ys"
  by (induction xs) auto

lemma comprehension_all_false:
  "(\<forall>x \<in> set xs. c x = Inr False) \<Longrightarrow> comprehension c f xs = Inr []"
  by (induction xs) auto

lemma dict_comp_lookup:
  "dict_comp f m ks = Inr r \<Longrightarrow>
     (k \<in> set ks \<longrightarrow> (\<exists>v. f k = Inr v \<and> map_of r k = Some v))
     \<and> (k \<notin> set ks \<longrightarrow> map_of r k = map_of m k)"
proof (induction ks arbitrary: m)
  case Nil
  then show ?case by simp
next
  case (Cons a ks)
  from Cons.prems obtain v where v: "f a = Inr v" "dict_comp f (AList.update a v m) ks = Inr r"
    by (auto simp: bind_err_eq_Inr)
  from Cons.IH [OF v(2)] v(1) show ?case
    by (auto simp: update_conv')
qed

lemma dict_comp_returns:
  "(\<forall>k \<in> set ks. \<exists>v. f k = Inr v) \<Longrightarrow> \<exists>r. dict_comp f m ks = Inr r"
  by (induction ks arbitrary: m) auto

lemma program_entries_same_length:
  assumes "program_entries net f nid = Inr xs" "program_entries net g nid = Inr ys"
  shows "length xs = length ys"
proof -
  from assms(1) obtain cfg v where cfg: "getitem (configs net) nid = Inr cfg" "getitem cfg ''phases'' = Inr v"
    by (auto simp: program_entries_def bind_err_eq_Inr)
  show ?thesis
  proof (cases v)
    case (PStr s)
    with assms cfg have "comprehension (\<lambda>c. static_program_1 cfg) (\<lambda>c. Inl TypeError) s = Inr xs"
      "comprehension (\<lambda>c. static_program_1 cfg) (\<lambda>c. Inl TypeError) s = Inr ys"
      by (simp_all add: program_entries_def)
    then show ?thesis by (simp add: comprehension_length_filter)
  next
    case (PInt n)
    with assms cfg show ?thesis by (simp add: program_entries_def)
  next
    case (PPhases ps)
    with assms cfg have "comprehension (\<lambda>p. static_program_1 cfg) f ps = Inr xs"
      "comprehension (\<lambda>p. static_program_1 cfg) g ps = Inr ys"
      by (simp_all add: program_entries_def)
    then show ?thesis by (simp add: comprehension_length_filter)
  qed
qed

lemma program_entries_static:
  assumes "program_entries net f nid = Inr xs"
    and "map_of (configs net) nid = Some cfg" "map_of cfg ''phases'' = Some (PPhases ps)"
    and "static_program_1 cfg = Inr True"
  shows "map Inr xs = map f ps"
proof -
  from assms have "comprehension (\<lambda>p. static_program_1 cfg) f ps = Inr xs"
    by (simp add: program_entries_def getitem_def)
  from comprehension_filter [OF this] assms(4) show ?thesis by simp
qed

lemma program_entries_not_static:
  assumes "map_of (configs net) nid = Some cfg" "map_of cfg ''phases'' = Some (PPhases ps)"
    and "static_program_1 cfg = Inr False"
  shows "program_entries net f nid = Inr []"
  using assms by (simp add: program_entries_def getitem_def comprehension_all_false)


lemma update_fresh: "k \<notin> fst ` set al \<Longrightarrow> AList.update k v al = al @ [(k, v)]"
  by (induction al) auto

lemma set_update_subset: "set (AList.update k v al) \<subseteq> insert (k, v) (set al)"
  by (induction al) auto

lemma py_index_mem: "py_index s i = Inr c \<Longrightarrow> c \<in> set s"
  by (auto simp: py_index_def split: if_splits)

lemma build_links_from:
  "build_links m conns = Inr links \<Longrightarrow> (l, e) \<in> set links \<Longrightarrow>
     (l, e) \<in> set m \<or> (\<exists>conn \<in> set conns. map_of conn ''from'' = Some e)"
proof (induction conns arbitrary: m)
  case Nil
  then show ?case by simp
next
  case (Cons conn conns)
  show ?case
  proof (cases "map_of conn ''linkIndex'' \<noteq> None")
    case True
    with Cons.prems(1) obtain lnk eid where
      eid: "getitem conn ''from'' = Inr eid"
      and rest: "build_links (AList.update lnk eid m) conns = Inr links"
      by (auto simp: bind_err_eq_Inr)
    from Cons.IH [OF rest Cons.prems(2)] set_update_subset [of lnk eid m] eid
    show ?thesis by (auto simp: getitem_eq_Inr)
  next
    case False
    with Cons.prems(1) have "build_links m conns = Inr links" by simp
    from Cons.IH [OF this Cons.prems(2)] show ?thesis by auto
  qed
qed

lemma components_mem:
  assumes "components links s = Inr g" "e \<in> set g"
  shows "\<exists>l c. (l, e) \<in> set links \<and> py_index s l = Inr c \<and> (c = CHR ''G'' \<or> c = CHR ''g'')"
proof -
  from comprehension_mem [OF assms [unfolded components_def]]
  obtain x where x: "x \<in> set links"
    "(case x of (lnk, eid) \<Rightarrow> bind_err (py_index s lnk) (\<lambda>c. Inr (c = CHR ''G'' \<or> c = CHR ''g''))) = Inr True"
    "(case x of (lnk, eid) \<Rightarrow> Inr eid) = (Inr e :: error + string)"
    by blast
  obtain l e' where le: "x = (l, e')" by (cases x)
  with x show ?thesis by (auto simp: bind_err_eq_Inr)
qed

lemma components_no_green:
  assumes "components links s = Inr g" "CHR ''G'' \<notin> set s" "CHR ''g'' \<notin> set s"
  shows "g = []"
proof (rule ccontr)
  assume "g \<noteq> []"
  then obtain e where "e \<in> set g" by (cases g) auto
  from components_mem [OF assms(1) this] assms(2,3) show False
    by (auto dest: py_index_mem)
qed

lemma phases_loop_enumerate:
  "phases_loop links i acc ss = Inr r \<Longrightarrow> map fst acc = [0..<i] \<Longrightarrow>
     \<exists>gs. map Inr gs = map (components links) ss
       \<and> r = acc @ List.enumerate i (map (\<lambda>g. sorted_list_of_set (set g)) (filter (\<lambda>g. g \<noteq> []) gs))"
proof (induction ss arbitrary: i acc)
  case Nil
  then show ?case by simp
next
  case (Cons s ss)
  from Cons.prems(1) obtain g where g: "components links s = Inr g"
    by (auto simp: bind_err_eq_Inr)
  show ?case
  proof (cases "g = []")
    case True
    with Cons.prems(1) g have "phases_loop links i acc ss = Inr r" by simp
    from Cons.IH [OF this Cons.prems(2)] obtain gs where
      gs: "map Inr gs = map (components links) ss"
        "r = acc @ List.enumerate i (map (\<lambda>g. sorted_list_of_set (set g)) (filter (\<lambda>g. g \<noteq> []) gs))"
      by blast
    have "map Inr (g # gs) = map (components links) (s # ss)" using g gs(1) by simp
    moreover have "r = acc @ List.enumerate i
        (map (\<lambda>g. sorted_list_of_set (set g)) (filter (\<lambda>g. g \<noteq> []) (g # gs)))"
      using gs(2) True by simp
    ultimately show ?thesis by blast
  next
    case False
    define v where "v = sorted_list_of_set (set g)"
    have fresh: "i \<notin> fst ` set acc"
    proof -
      have "fst ` set acc = set (map fst acc)" by simp
      also have "\<dots> = {0..<i}" using Cons.prems(2) by simp
      finally show ?thesis by simp
    qed
    from False Cons.prems(1) g
    have "phases_loop links (i + 1) (AList.update i v acc) ss = Inr r"
      by (simp add: v_def)
    then have run: "phases_loop links (Suc i) (acc @ [(i, v)]) ss = Inr r"
      by (simp add: update_fresh [OF fresh])
    have "map fst (acc @ [(i, v)]) = [0..<Suc i]" using Cons.prems(2) by simp
    from Cons.IH [OF run this] obtain gs where
      gs: "map Inr gs = map (components links) ss"
        "r = (acc @ [(i, v)]) @ List.enumerate (Suc i)
            (map (\<lambda>g. sorted_list_of_set (set g)) (filter (\<lambda>g. g \<noteq> []) gs))"
      by blast
    have "map Inr (g # gs) = map (components links) (s # ss)" using g gs(1) by simp
    moreover have "r = acc @ List.enumerate i
        (map (\<lambda>g. sorted_list_of_set (set g)) (filter (\<lambda>g. g \<noteq> []) (g # gs)))"
      using gs(2) False by (simp add: v_def)
    ultimately show ?thesis by blast
  qed
qed

lemma phases_node_enumerate:
  assumes "phases_node net st nid = Inr pm"
  shows "\<exists>ss links gs. map_of st nid = Some ss
     \<and> build_links [] (filter (controlled_by nid) (connections net)) = Inr links
     \<and> map Inr gs = map (components links) ss
     \<and> pm = List.enumerate 0 (map (\<lambda>g. sorted_list_of_set (set g)) (filter (\<lambda>g. g \<noteq> []) gs))"
proof -
  from assms obtain ss links where a: "map_of st nid = Some ss"
    "build_links [] (filter (controlled_by nid) (connections net)) = Inr links"
    "phases_loop links 0 [] ss = Inr pm"
    by (auto simp: phases_node_def bind_err_eq_Inr getitem_eq_Inr)
  from phases_loop_enumerate [OF a(3)] a(1,2) show ?thesis by auto
qed

lemma phases_lookup:
  assumes "phases net = Inr ph" "map_of ph nid = Some pm"
  shows "\<exists>ids st. tls_ids net = Inr ids \<and> nid \<in> set ids \<and> states net = Inr st
     \<and> phases_node net st nid = Inr pm"
proof -
  from assms(1) obtain ids st where a: "tls_ids net = Inr ids" "states net = Inr st"
    "dict_comp (phases_node net st) [] ids = Inr ph"
    by (auto simp: phases_def bind_err_eq_Inr)
  from dict_comp_lookup [OF a(3), of nid] assms(2) have "nid \<in> set ids"
    by (cases "nid \<in> set ids") auto
  with dict_comp_lookup [OF a(3), of nid] assms(2) a show ?thesis by auto
qed

lemma comprehension_mem_conv:
  assumes "comprehension c f xs = Inr ys" "x \<in> set xs" "c x = Inr True" "f x = Inr y"
  shows "y \<in> set ys"
proof -
  from assms(2,3,4) have "Inr y \<in> set (map f (filter (\<lambda>x. c x = Inr True) xs))"
    by force
  then have "Inr y \<in> set (map Inr ys :: (error + _) list)"
    using comprehension_filter [OF assms(1)] by simp
  then show ?thesis by auto
qed

lemma components_set:
  assumes "components links s = Inr g"
  shows "set g = {e. \<exists>l c. (l, e) \<in> set links \<and> py_index s l = Inr c
                       \<and> (c = CHR ''G'' \<or> c = CHR ''g'')}"
proof (intro set_eqI iffI)
  fix e assume "e \<in> set g"
  from components_mem [OF assms this]
  show "e \<in> {e. \<exists>l c. (l, e) \<in> set links \<and> py_index s l = Inr c
                       \<and> (c = CHR ''G'' \<or> c = CHR ''g'')}" by blast
next
  fix e assume "e \<in> {e. \<exists>l c. (l, e) \<in> set links \<and> py_index s l = Inr c
                       \<and> (c = CHR ''G'' \<or> c = CHR ''g'')}"
  then obtain l c where le: "(l, e) \<in> set links" "py_index s l = Inr c"
    "c = CHR ''G'' \<or> c = CHR ''g''" by blast
  have "(case (l, e) of (lnk, eid) \<Rightarrow>
           bind_err (py_index s lnk) (\<lambda>c. Inr (c = CHR ''G'' \<or> c = CHR ''g''))) = Inr True"
    using le(2,3) by simp
  moreover have "(case (l, e) of (lnk, eid) \<Rightarrow> Inr eid) = (Inr e :: error + string)" by simp
  ultimately show "e \<in> set g"
    using comprehension_mem_conv [OF assms [unfolded components_def] le(1)] by blast
qed

lemma sorted_components:
  "sorted (sorted_list_of_set (set g)) \<and> distinct (sorted_list_of_set (set g))
    \<and> set (sorted_list_of_set (set g)) = set g"
  by (simp add: sorted_list_of_set_sort_remdups)

lemma map_Inr_length:
  assumes "map Inr ys = map f xs"
  shows "length ys = length xs"
  using arg_cong [OF assms, of length] by simp

lemma map_Inr_mem:
  fixes f :: "'a \<Rightarrow> 'e + 'b"
  assumes "map Inr ys = map f xs" "y \<in> set ys"
  shows "\<exists>x \<in> set xs. f x = Inr y"
proof -
  from assms(2) have "(Inr y :: 'e + 'b) \<in> Inr ` set ys" by simp
  with arg_cong [OF assms(1), of set] have "Inr y \<in> f ` set xs" by simp
  then show ?thesis by auto
qed


subsection \<open>networks/base.py\<close>


lemma durations_node_returns:
  assumes "map_of (configs net) nid = Some cfg" "map_of cfg ''phases'' = Some (PPhases ps)"
    and "static_program_1 cfg = Inr b"
    and "\<forall>p \<in> set ps. \<exists>s n. map_of p ''duration'' = Some s \<and> py_int s = Inr n"
  shows "\<exists>ds. durations_node net nid = Inr ds"
proof -
  have "\<exists>ds. comprehension (\<lambda>p. static_program_1 cfg)
          (\<lambda>p. bind_err (getitem p ''duration'') py_int) ps = Inr ds"
  proof (rule comprehension_returns)
    show "\<forall>x\<in>set ps. \<exists>b. static_program_1 cfg = Inr b" using assms(3) by simp
    show "\<forall>x\<in>set ps. static_program_1 cfg = Inr True \<longrightarrow>
            (\<exists>y. bind_err (getitem x ''duration'') py_int = Inr y)"
      using assms(4) by (fastforce simp: getitem_def)
  qed
  with assms(1,2) show ?thesis
    by (simp add: durations_node_def program_entries_def getitem_def)
qed

text \<open>
  C9. For a traffic-light node whose registered program is static with program id 1,
  \<open>durations\<close> holds \<open>int(p['duration'])\<close> of every phase entry \<open>p\<close> of that
  program, in the order of the entries, and \<open>states\<close> holds \<open>p['state']\<close> of every
  entry: both lists are as long as the program's phase list, whether or not an entry's
  state has a green bit, while the phases derived for the node can be fewer.
\<close>

theorem durations_cover_every_state:
  assumes "tls_ids net = Inr ids" and "nid \<in> set ids"
    and "states net = Inr st" and "durations net = Inr du"
    and "map_of (configs net) nid = Some cfg"
    and "map_of cfg ''phases'' = Some (PPhases ps)"
    and "static_program_1 cfg = Inr True"
  shows "\<exists>ss ds. map_of st nid = Some ss \<and> map_of du nid = Some ds
     \<and> map Inr ss = map (\<lambda>p. getitem p ''state'') ps
     \<and> map Inr ds = map (\<lambda>p. bind_err (getitem p ''duration'') py_int) ps
     \<and> length ds = length ps \<and> length ds = length ss
     \<and> (\<forall>ph pm. phases net = Inr ph \<and> map_of ph nid = Some pm \<longrightarrow> length pm \<le> length ds)"
proof -
  from assms(1,3) have "dict_comp (states_node net) [] ids = Inr st"
    by (simp add: states_def)
  from dict_comp_lookup [OF this, of nid] assms(2) obtain ss where
    ss: "states_node net nid = Inr ss" "map_of st nid = Some ss" by auto
  from assms(1,4) have "dict_comp (durations_node net) [] ids = Inr du"
    by (simp add: durations_def)
  from dict_comp_lookup [OF this, of nid] assms(2) obtain ds where
    ds: "durations_node net nid = Inr ds" "map_of du nid = Some ds" by auto
  have s: "map Inr ss = map (\<lambda>p. getitem p ''state'') ps"
    using program_entries_static [OF ss(1) [unfolded states_node_def] assms(5,6,7)] .
  have d: "map Inr ds = map (\<lambda>p. bind_err (getitem p ''duration'') py_int) ps"
    using program_entries_static [OF ds(1) [unfolded durations_node_def] assms(5,6,7)] .
  have ls: "length ss = length ps"
  proof -
    have "length (map Inr ss :: (error + string) list) = length (map (\<lambda>p. getitem p ''state'') ps)"
      using s by simp
    then show ?thesis by simp
  qed
  have ld: "length ds = length ps"
  proof -
    have "length (map Inr ds :: (error + int) list)
        = length (map (\<lambda>p. bind_err (getitem p ''duration'') py_int) ps)"
      using d by simp
    then show ?thesis by simp
  qed
  have "length pm \<le> length ds" if "phases net = Inr ph" "map_of ph nid = Some pm" for ph pm
  proof -
    from phases_lookup [OF that] obtain st' where
      st': "states net = Inr st'" "phases_node net st' nid = Inr pm" by blast
    with assms(3) have "phases_node net st nid = Inr pm" by simp
    from phases_node_enumerate [OF this] ss(2) obtain links gs where
      gs: "map Inr gs = map (components links) ss"
        "pm = List.enumerate 0 (map (\<lambda>g. sorted_list_of_set (set g)) (filter (\<lambda>g. g \<noteq> []) gs))"
      by auto
    have "length (map Inr gs :: (error + string list) list) = length (map (components links) ss)"
      using gs(1) by simp
    then have "length gs = length ss" by simp
    moreover have "length pm \<le> length gs" using gs(2) by simp
    ultimately show ?thesis using ls ld by simp
  qed
  with ss(2) ds(2) s d ls ld show ?thesis by auto
qed

theorem durations_cover_every_state_witness:
  "tls_ids intersection_net = Inr [''247123161'']
   \<and> states intersection_net
       = Inr [(''247123161'', [''GGrrrGGrrr'', ''yyrrryyrrr'', ''rrGGGrrGGG'', ''rryyyrryyy''])]
   \<and> durations intersection_net = Inr [(''247123161'', [39, 6, 39, 6])]
   \<and> phases intersection_net
       = Inr [(''247123161'', [(0, [''-238059324'', ''383432312'']),
                               (1, [''-238059328'', ''309265401''])])]
   \<and> (\<exists>ss ds. map_of [(''247123161'', [''GGrrrGGrrr'', ''yyrrryyrrr'', ''rrGGGrrGGG'', ''rryyyrryyy''])]
                  ''247123161'' = Some ss
        \<and> map_of [(''247123161'', [39, 6, 39, 6 :: int])] ''247123161'' = Some ds
        \<and> length ds = 4 \<and> length ds = length ss
        \<and> length [(0 :: nat, [''-238059324'', ''383432312'']), (1, [''-238059328'', ''309265401''])]
            \<le> length ds)"
proof -
  let ?cfg = "[(''id'', PStr ''247123161''), (''type'', PStr ''static''), (''programID'', PInt 1),
           (''phases'', PPhases
              [[(''duration'', ''39''), (''state'', ''GGrrrGGrrr'')],
               [(''duration'', ''6''), (''state'', ''yyrrryyrrr'')],
               [(''duration'', ''39''), (''state'', ''rrGGGrrGGG'')],
               [(''duration'', ''6''), (''state'', ''rryyyrryyy'')]])]"
  let ?ps = "[[(''duration'', ''39''), (''state'', ''GGrrrGGrrr'')],
               [(''duration'', ''6''), (''state'', ''yyrrryyrrr'')],
               [(''duration'', ''39''), (''state'', ''rrGGGrrGGG'')],
               [(''duration'', ''6''), (''state'', ''rryyyrryyy'')]]"
  have a1: "tls_ids intersection_net = Inr [''247123161'']" by code_simp
  have a2: "''247123161'' \<in> set [''247123161'']" by simp
  have a3: "states intersection_net
       = Inr [(''247123161'', [''GGrrrGGrrr'', ''yyrrryyrrr'', ''rrGGGrrGGG'', ''rryyyrryyy''])]"
    by code_simp
  have a4: "durations intersection_net = Inr [(''247123161'', [39, 6, 39, 6])]" by code_simp
  have a5: "map_of (configs intersection_net) ''247123161'' = Some ?cfg"
    by (simp add: intersection_net_def)
  have a6: "map_of ?cfg ''phases'' = Some (PPhases ?ps)" by simp
  have a7: "static_program_1 ?cfg = Inr True"
    by (simp add: static_program_1_def getitem_def)
  have p: "phases intersection_net
       = Inr [(''247123161'', [(0, [''-238059324'', ''383432312'']),
                               (1, [''-238059328'', ''309265401''])])]"
    by code_simp
  from durations_cover_every_state [OF a1 a2 a3 a4 a5 a6 a7] obtain ss ds where
    r: "map_of [(''247123161'', [''GGrrrGGrrr'', ''yyrrryyrrr'', ''rrGGGrrGGG'', ''rryyyrryyy''])]
                  ''247123161'' = Some ss"
       "map_of [(''247123161'', [39, 6, 39, 6 :: int])] ''247123161'' = Some ds"
       "length ds = length ?ps" "length ds = length ss"
       "\<forall>ph pm. phases intersection_net = Inr ph \<and> map_of ph ''247123161'' = Some pm
           \<longrightarrow> length pm \<le> length ds"
    by blast
  from r(5) p have "length [(0 :: nat, [''-238059324'', ''383432312'']), (1, [''-238059328'', ''309265401''])]
            \<le> length ds"
    by simp
  with r(1-4) a1 a3 a4 p show ?thesis by auto
qed

text \<open>
  C3 (amended). For a traffic-light node whose registered program has a phase list but is
  not static with program id 1, \<open>states\<close> and \<open>durations\<close> give the empty list for that
  node without raising on its account, and so does \<open>phases\<close> once the link table of the
  node's connections is built. A node with no registered program is not covered: there the
  lookup \<open>configs[nid]\<close> raises KeyError.
\<close>

theorem no_static_program_is_empty:
  assumes "tls_ids net = Inr ids" and "nid \<in> set ids"
    and "map_of (configs net) nid = Some cfg"
    and "map_of cfg ''phases'' = Some (PPhases ps)"
    and "static_program_1 cfg = Inr False"
  shows "states_node net nid = Inr [] \<and> durations_node net nid = Inr []
     \<and> (\<forall>st. states net = Inr st \<longrightarrow> map_of st nid = Some [])
     \<and> (\<forall>du. durations net = Inr du \<longrightarrow> map_of du nid = Some [])
     \<and> (\<forall>st links. map_of st nid = Some []
            \<and> build_links [] (filter (controlled_by nid) (connections net)) = Inr links
          \<longrightarrow> phases_node net st nid = Inr [])
     \<and> (\<forall>ph. phases net = Inr ph \<longrightarrow> map_of ph nid = Some [])"
proof -
  have s: "states_node net nid = Inr []"
    unfolding states_node_def by (rule program_entries_not_static [OF assms(3,4,5)])
  have d: "durations_node net nid = Inr []"
    unfolding durations_node_def by (rule program_entries_not_static [OF assms(3,4,5)])
  have st: "map_of st nid = Some []" if "states net = Inr st" for st
  proof -
    from that assms(1) have "dict_comp (states_node net) [] ids = Inr st"
      by (simp add: states_def)
    from dict_comp_lookup [OF this, of nid] assms(2) s show ?thesis by auto
  qed
  have du: "map_of du nid = Some []" if "durations net = Inr du" for du
  proof -
    from that assms(1) have "dict_comp (durations_node net) [] ids = Inr du"
      by (simp add: durations_def)
    from dict_comp_lookup [OF this, of nid] assms(2) d show ?thesis by auto
  qed
  have pn: "phases_node net st nid = Inr []"
    if "map_of st nid = Some []"
      "build_links [] (filter (controlled_by nid) (connections net)) = Inr links" for st links
    using that by (simp add: phases_node_def getitem_def)
  have ph: "map_of ph nid = Some []" if "phases net = Inr ph" for ph
  proof -
    from that assms(1) obtain st' where st': "states net = Inr st'"
      "dict_comp (phases_node net st') [] ids = Inr ph"
      by (auto simp: phases_def bind_err_eq_Inr)
    from dict_comp_lookup [OF st'(2), of nid] assms(2) obtain pm where
      pm: "phases_node net st' nid = Inr pm" "map_of ph nid = Some pm" by auto
    from phases_node_enumerate [OF pm(1)] st [OF st'(1)] have "pm = []" by auto
    with pm(2) show ?thesis by simp
  qed
  from s d st du pn ph show ?thesis by blast
qed

theorem no_static_program_is_empty_witness:
  "tls_ids actuated_net = Inr [''247123161'']
   \<and> states actuated_net = Inr [(''247123161'', [])]
   \<and> durations actuated_net = Inr [(''247123161'', [])]
   \<and> phases actuated_net = Inr [(''247123161'', [])]
   \<and> states_node actuated_net ''247123161'' = Inr []
   \<and> durations_node actuated_net ''247123161'' = Inr []
   \<and> map_of [(''247123161'', [] :: (nat \<times> string list) list)] ''247123161'' = Some []"
proof -
  let ?ps = "[[(''duration'', ''39''), (''state'', ''GGrrrGGrrr'')]]"
  let ?cfg = "[(''id'', PStr ''247123161''), (''type'', PStr ''actuated''), (''programID'', PInt 1),
        (''phases'', PPhases ?ps)]"
  have a1: "tls_ids actuated_net = Inr [''247123161'']" by code_simp
  have a2: "''247123161'' \<in> set [''247123161'']" by simp
  have a3: "map_of (configs actuated_net) ''247123161'' = Some ?cfg"
    by (simp add: actuated_net_def intersection_net_def)
  have a4: "map_of ?cfg ''phases'' = Some (PPhases ?ps)" by simp
  have a5: "static_program_1 ?cfg = Inr False"
    by (simp add: static_program_1_def getitem_def)
  have s: "states actuated_net = Inr [(''247123161'', [])]" by code_simp
  have d: "durations actuated_net = Inr [(''247123161'', [])]" by code_simp
  have p: "phases actuated_net = Inr [(''247123161'', [])]" by code_simp
  note r = no_static_program_is_empty [OF a1 a2 a3 a4 a5]
  from r p have "map_of [(''247123161'', [] :: (nat \<times> string list) list)] ''247123161'' = Some []"
    by blast
  with r a1 s d p show ?thesis by blast
qed

text \<open>
  The claim as stated includes a node for which no program was registered: for such a
  node all three properties raise KeyError.
\<close>

theorem unregistered_program_raises:
  "tls_ids unregistered_net = Inr [''247123161'']
   \<and> map_of (configs unregistered_net) ''247123161'' = None
   \<and> states unregistered_net = Inl KeyError
   \<and> durations unregistered_net = Inl KeyError
   \<and> phases unregistered_net = Inl KeyError"
  by code_simp

text \<open>
  C2 (amended). For every traffic-light node the derived phase mapping has at most as many
  phases as the node has states; its indices are exactly \<open>0, 1, ...\<close>, assigned in state
  order to the states whose set of green components is not empty; every phase is
  non-empty, sorted and without repetition, and contains only \<open>from\<close> edge ids of
  connections controlled by the node (\<open>tl\<close> equal to the node id, with a \<open>linkIndex\<close>).
  These are incoming approaches of the node when every such connection starts at an edge
  whose \<open>to\<close> field is the node; the code does not compare them with the approaches.
\<close>

theorem phases_invariants:
  assumes "phases net = Inr ph" and "map_of ph nid = Some pm"
  shows "\<exists>st ss links gs. states net = Inr st \<and> map_of st nid = Some ss
     \<and> build_links [] (filter (controlled_by nid) (connections net)) = Inr links
     \<and> map Inr gs = map (components links) ss
     \<and> map snd pm = map (\<lambda>g. sorted_list_of_set (set g)) (filter (\<lambda>g. g \<noteq> []) gs)
     \<and> map fst pm = [0..<length pm]
     \<and> length pm \<le> length ss
     \<and> (\<forall>c \<in> set (map snd pm). c \<noteq> [] \<and> sorted c \<and> distinct c
          \<and> (\<forall>e \<in> set c. \<exists>conn \<in> set (connections net).
                 controlled_by nid conn \<and> map_of conn ''from'' = Some e))
     \<and> (\<forall>ap as. approaches net = Inr ap \<and> map_of ap nid = Some as
          \<and> (\<forall>conn \<in> set (connections net). controlled_by nid conn \<longrightarrow>
                (\<exists>e \<in> set (edges net). map_of e ''to'' = Some nid
                    \<and> map_of e ''id'' = map_of conn ''from''))
          \<longrightarrow> (\<forall>c \<in> set (map snd pm). set c \<subseteq> set as))"
proof -
  from phases_lookup [OF assms] obtain ids st where
    ids: "tls_ids net = Inr ids" "nid \<in> set ids" and st: "states net = Inr st"
    and pn: "phases_node net st nid = Inr pm" by blast
  from phases_node_enumerate [OF pn] obtain ss links gs where
    ss: "map_of st nid = Some ss"
    and links: "build_links [] (filter (controlled_by nid) (connections net)) = Inr links"
    and gs: "map Inr gs = map (components links) ss"
    and pm: "pm = List.enumerate 0
        (map (\<lambda>g. sorted_list_of_set (set g)) (filter (\<lambda>g. g \<noteq> []) gs))"
    by blast
  have snd_pm: "map snd pm = map (\<lambda>g. sorted_list_of_set (set g)) (filter (\<lambda>g. g \<noteq> []) gs)"
    using pm by simp
  have fst_pm: "map fst pm = [0..<length pm]" using pm by simp
  have len: "length pm \<le> length ss"
  proof -
    have "length pm \<le> length gs" using pm by simp
    with map_Inr_length [OF gs] show ?thesis by simp
  qed
  have from_conn: "\<exists>conn \<in> set (connections net).
        controlled_by nid conn \<and> map_of conn ''from'' = Some e"
    if "g \<in> set gs" "e \<in> set g" for g e
  proof -
    from map_Inr_mem [OF gs that(1)] obtain s where "components links s = Inr g" by blast
    from components_mem [OF this that(2)] obtain l where "(l, e) \<in> set links" by blast
    from build_links_from [OF links this] show ?thesis by auto
  qed
  have each: "c \<noteq> [] \<and> sorted c \<and> distinct c
      \<and> (\<forall>e \<in> set c. \<exists>conn \<in> set (connections net).
             controlled_by nid conn \<and> map_of conn ''from'' = Some e)"
    if "c \<in> set (map snd pm)" for c
  proof -
    from that snd_pm obtain g where g: "g \<in> set gs" "g \<noteq> []" "c = sorted_list_of_set (set g)"
      by auto
    from g(2) have "set g \<noteq> {}" by simp
    then have "set c \<noteq> {}" using g(3) sorted_components [of g] by simp
    then have "c \<noteq> []" by auto
    with g(1,3) sorted_components [of g] from_conn show ?thesis by auto
  qed
  have appr: "set c \<subseteq> set as"
    if a: "approaches net = Inr ap" "map_of ap nid = Some as"
      and wf: "\<forall>conn \<in> set (connections net). controlled_by nid conn \<longrightarrow>
                (\<exists>e \<in> set (edges net). map_of e ''to'' = Some nid
                    \<and> map_of e ''id'' = map_of conn ''from'')"
      and c: "c \<in> set (map snd pm)" for ap as c
  proof
    fix x assume x: "x \<in> set c"
    from a(1) ids(1) have "dict_comp (approaches_node net) [] ids = Inr ap"
      by (simp add: approaches_def)
    from dict_comp_lookup [OF this, of nid] ids(2) a(2)
    have an: "approaches_node net nid = Inr as" by auto
    from each [OF c] x obtain conn where conn: "conn \<in> set (connections net)"
      "controlled_by nid conn" "map_of conn ''from'' = Some x" by blast
    with wf obtain e where e: "e \<in> set (edges net)" "map_of e ''to'' = Some nid"
      "map_of e ''id'' = Some x" by force
    have "bind_err (getitem e ''to'') (\<lambda>t. Inr (t = nid)) = Inr True"
      using e(2) by (simp add: getitem_def)
    moreover have "getitem e ''id'' = Inr x" using e(3) by (simp add: getitem_def)
    ultimately show "x \<in> set as"
      using comprehension_mem_conv [OF an [unfolded approaches_node_def] e(1)] by blast
  qed
  from st ss links gs snd_pm fst_pm len each appr show ?thesis by blast
qed


theorem phases_invariants_witness:
  "phases intersection_net
     = Inr [(''247123161'', [(0, [''-238059324'', ''383432312'']),
                             (1, [''-238059328'', ''309265401''])])]
   \<and> approaches intersection_net
     = Inr [(''247123161'', [''-238059324'', ''-238059328'', ''309265401'', ''383432312''])]
   \<and> (\<exists>st ss. states intersection_net = Inr st \<and> map_of st ''247123161'' = Some ss
         \<and> length [(0 :: nat, [''-238059324'', ''383432312'']),
                    (1, [''-238059328'', ''309265401''])] \<le> length ss)
   \<and> set [''-238059324'', ''383432312'']
       \<subseteq> set [''-238059324'', ''-238059328'', ''309265401'', ''383432312'']"
proof -
  let ?pm = "[(0 :: nat, [''-238059324'', ''383432312'']), (1, [''-238059328'', ''309265401''])]"
  let ?as = "[''-238059324'', ''-238059328'', ''309265401'', ''383432312'']"
  have p: "phases intersection_net = Inr [(''247123161'', ?pm)]" by code_simp
  have m: "map_of [(''247123161'', ?pm)] ''247123161'' = Some ?pm" by simp
  have a: "approaches intersection_net = Inr [(''247123161'', ?as)]" by code_simp
  have ma: "map_of [(''247123161'', ?as)] ''247123161'' = Some ?as" by simp
  have wf: "\<forall>conn \<in> set (connections intersection_net).
      controlled_by ''247123161'' conn \<longrightarrow>
        (\<exists>e \<in> set (edges intersection_net). map_of e ''to'' = Some ''247123161''
            \<and> map_of e ''id'' = map_of conn ''from'')"
    by (simp add: intersection_net_def controlled_by_def)
  from phases_invariants [OF p m] obtain st ss where
    r: "states intersection_net = Inr st" "map_of st ''247123161'' = Some ss"
       "length ?pm \<le> length ss"
       "\<forall>ap as. approaches intersection_net = Inr ap \<and> map_of ap ''247123161'' = Some as
          \<and> (\<forall>conn \<in> set (connections intersection_net).
                controlled_by ''247123161'' conn \<longrightarrow>
                (\<exists>e \<in> set (edges intersection_net). map_of e ''to'' = Some ''247123161''
                    \<and> map_of e ''id'' = map_of conn ''from''))
          \<longrightarrow> (\<forall>c \<in> set (map snd ?pm). set c \<subseteq> set as)"
    by blast
  from r(4) a ma wf have "\<forall>c \<in> set (map snd ?pm). set c \<subseteq> set ?as" by blast
  then have "set [''-238059324'', ''383432312''] \<subseteq> set ?as" by simp
  with p a r(1,2,3) show ?thesis by blast
qed

text \<open>
  The claim as stated requires every phase to consist of incoming approaches of the node:
  a connection controlled by the node whose \<open>from\<close> edge is no edge into the node puts
  that edge into a phase.
\<close>

theorem phases_outside_approaches:
  "phases stray_net = Inr [(''247123161'', [(0, [''elsewhere''])])]
   \<and> approaches stray_net
     = Inr [(''247123161'', [''-238059324'', ''-238059328'', ''309265401'', ''383432312''])]
   \<and> ''elsewhere'' \<notin> set [''-238059324'', ''-238059328'', ''309265401'', ''383432312'']"
  by code_simp

text \<open>
  C1 (amended). For a node whose state list is
  \<open>['GGrrrGGrrr', 'yyrrryyrrr', 'rrGGGrrGGG', 'rryyyrryyy']\<close> the yellow-only second and
  fourth states produce no phase, and the phases are the non-empty ones among the sorted
  green sets of the first and the third state, indexed from 0 in that order: exactly two
  phases, index 0 for the first state and index 1 for the third, when the links of the
  node reach a green bit of each. The green set of a state holds the \<open>from\<close> edges of
  the links whose bit in the state is \<open>G\<close> or \<open>g\<close>.
\<close>

theorem phases_of_four_states:
  assumes "phases net = Inr ph" and "map_of ph nid = Some pm"
    and "states net = Inr st"
    and "map_of st nid = Some [''GGrrrGGrrr'', ''yyrrryyrrr'', ''rrGGGrrGGG'', ''rryyyrryyy'']"
  shows "\<exists>links g1 g3.
       build_links [] (filter (controlled_by nid) (connections net)) = Inr links
     \<and> components links ''GGrrrGGrrr'' = Inr g1
     \<and> components links ''yyrrryyrrr'' = Inr []
     \<and> components links ''rrGGGrrGGG'' = Inr g3
     \<and> components links ''rryyyrryyy'' = Inr []
     \<and> set g1 = {e. \<exists>l c. (l, e) \<in> set links \<and> py_index ''GGrrrGGrrr'' l = Inr c
                          \<and> (c = CHR ''G'' \<or> c = CHR ''g'')}
     \<and> set g3 = {e. \<exists>l c. (l, e) \<in> set links \<and> py_index ''rrGGGrrGGG'' l = Inr c
                          \<and> (c = CHR ''G'' \<or> c = CHR ''g'')}
     \<and> pm = List.enumerate 0
          (filter (\<lambda>c. c \<noteq> []) [sorted_list_of_set (set g1), sorted_list_of_set (set g3)])
     \<and> (g1 \<noteq> [] \<and> g3 \<noteq> [] \<longrightarrow>
          pm = [(0, sorted_list_of_set (set g1)), (1, sorted_list_of_set (set g3))])"
proof -
  from phases_lookup [OF assms(1,2)] assms(3) have "phases_node net st nid = Inr pm" by auto
  from phases_node_enumerate [OF this] obtain ss links gs where
    ss: "map_of st nid = Some ss"
    and links: "build_links [] (filter (controlled_by nid) (connections net)) = Inr links"
    and gs': "map Inr gs = map (components links) ss"
    and pm: "pm = List.enumerate 0
        (map (\<lambda>g. sorted_list_of_set (set g)) (filter (\<lambda>g. g \<noteq> []) gs))"
    by blast
  from ss assms(4) have "ss = [''GGrrrGGrrr'', ''yyrrryyrrr'', ''rrGGGrrGGG'', ''rryyyrryyy'']"
    by simp
  with gs' have gs: "map Inr gs = map (components links)
        [''GGrrrGGrrr'', ''yyrrryyrrr'', ''rrGGGrrGGG'', ''rryyyrryyy'']"
    by simp
  from gs obtain g1 g2 g3 g4 where g: "gs = [g1, g2, g3, g4]"
    "components links ''GGrrrGGrrr'' = Inr g1" "components links ''yyrrryyrrr'' = Inr g2"
    "components links ''rrGGGrrGGG'' = Inr g3" "components links ''rryyyrryyy'' = Inr g4"
    by (auto simp: map_eq_Cons_conv)
  have g2: "g2 = []" by (rule components_no_green [OF g(3)]) simp_all
  have g4: "g4 = []" by (rule components_no_green [OF g(5)]) simp_all
  have ne: "sorted_list_of_set (set h) \<noteq> [] \<longleftrightarrow> h \<noteq> []" for h :: "string list"
    using sorted_components [of h] by (metis set_empty)
  have pm': "pm = List.enumerate 0
      (filter (\<lambda>c. c \<noteq> []) [sorted_list_of_set (set g1), sorted_list_of_set (set g3)])"
    unfolding pm g(1) g2 g4 by (simp add: ne)
  have two: "pm = [(0, sorted_list_of_set (set g1)), (1, sorted_list_of_set (set g3))]"
    if "g1 \<noteq> []" "g3 \<noteq> []"
    unfolding pm' using that by (simp add: ne enumerate_simps)
  from links g(2,3,4,5) g2 g4 pm' two components_set [OF g(2)] components_set [OF g(4)]
  show ?thesis by blast
qed

theorem phases_of_four_states_witness:
  "phases intersection_net
     = Inr [(''247123161'', [(0, [''-238059324'', ''383432312'']),
                             (1, [''-238059328'', ''309265401''])])]
   \<and> states intersection_net
     = Inr [(''247123161'', [''GGrrrGGrrr'', ''yyrrryyrrr'', ''rrGGGrrGGG'', ''rryyyrryyy''])]
   \<and> (\<exists>links g1 g3.
        build_links [] (filter (controlled_by ''247123161'') (connections intersection_net))
          = Inr links
      \<and> components links ''GGrrrGGrrr'' = Inr g1
      \<and> components links ''rrGGGrrGGG'' = Inr g3
      \<and> [(0, [''-238059324'', ''383432312'']), (1, [''-238059328'', ''309265401''])]
          = List.enumerate 0
             (filter (\<lambda>c. c \<noteq> []) [sorted_list_of_set (set g1), sorted_list_of_set (set g3)]))"
proof -
  let ?pm = "[(0 :: nat, [''-238059324'', ''383432312'']), (1, [''-238059328'', ''309265401''])]"
  let ?ss = "[''GGrrrGGrrr'', ''yyrrryyrrr'', ''rrGGGrrGGG'', ''rryyyrryyy'']"
  have p: "phases intersection_net = Inr [(''247123161'', ?pm)]" by code_simp
  have m: "map_of [(''247123161'', ?pm)] ''247123161'' = Some ?pm" by simp
  have s: "states intersection_net = Inr [(''247123161'', ?ss)]" by code_simp
  have ms: "map_of [(''247123161'', ?ss)] ''247123161'' = Some ?ss" by simp
  from phases_of_four_states [OF p m s ms] p s show ?thesis by blast
qed

text \<open>
  The claim as stated promises two phases for every node with this state list: a node none
  of whose connections is controlled by it has the four states and no phase.
\<close>

theorem phases_without_links:
  "states unlinked_net
     = Inr [(''247123161'', [''GGrrrGGrrr'', ''yyrrryyrrr'', ''rrGGGrrGGG'', ''rryyyrryyy''])]
   \<and> phases unlinked_net = Inr [(''247123161'', [])]"
  by code_simp

subsection \<open>core/experiment.py\<close>

text \<open>
  C10. When the environment given to \<open>Experiment\<close> has no \<open>cycle_time\<close> attribute and
  the constructor returns, \<open>self.cycle\<close> is None and the instance dictionary has no
  \<open>step_counter\<close>; the run loop assigns no attribute of the experiment, only the
  environment behind \<open>self.env\<close> changes. So whatever state that environment is in, the
  snapshot check raises AttributeError instead of applying the default cadence.
\<close>

theorem is_save_step_without_cycle_time:
  assumes "Experiment_init env dir_path train policies = Inr self"
    and "cycle_time env = None"
  shows "map_of self ''cycle'' = Some ANone
    \<and> map_of self ''step_counter'' = None
    \<and> is_save_step (AList.update ''env'' (AEnv env') self) = Inl AttributeError"
proof -
  from assms obtain q where self:
    "self = [(''env'', AEnv env), (''train'', ABool train), (''dir_path'', AStr dir_path),
             (''Qs'', APolicies policies), (''cycle'', ANone), (''save_step'', ANum q)]"
    by (auto simp: Experiment_init_def bind_err_def py_truediv_def split: if_splits)
  show ?thesis
    unfolding self by (simp add: is_save_step_def getattr_def bind_err_def)
qed

theorem is_save_step_without_cycle_time_witness:
  "Experiment_init \<lparr>cycle_time = None, sim_step = 1, duration = None, env_step_counter = 0\<rparr>
      ''emissions'' True (None :: nat list option)
    = Inr [(''env'', AEnv \<lparr>cycle_time = None, sim_step = 1, duration = None,
                            env_step_counter = 0\<rparr>),
           (''train'', ABool True), (''dir_path'', AStr ''emissions''),
           (''Qs'', APolicies None), (''cycle'', ANone), (''save_step'', ANum 1)]
   \<and> is_save_step
       (AList.update ''env''
          (AEnv \<lparr>cycle_time = None, sim_step = 1, duration = None, env_step_counter = 7\<rparr>)
          ([(''env'', AEnv \<lparr>cycle_time = None, sim_step = 1, duration = None,
                            env_step_counter = 0\<rparr>),
           (''train'', ABool True), (''dir_path'', AStr ''emissions''),
           (''Qs'', APolicies None), (''cycle'', ANone), (''save_step'', ANum 1)]
           :: (string \<times> nat pyattr) list))
     = Inl AttributeError"
proof -
  have i: "Experiment_init \<lparr>cycle_time = None, sim_step = 1, duration = None, env_step_counter = 0\<rparr>
      ''emissions'' True (None :: nat list option)
    = Inr [(''env'', AEnv \<lparr>cycle_time = None, sim_step = 1, duration = None,
                            env_step_counter = 0\<rparr>),
           (''train'', ABool True), (''dir_path'', AStr ''emissions''),
           (''Qs'', APolicies None), (''cycle'', ANone), (''save_step'', ANum 1)]"
    by (simp add: Experiment_init_def bind_err_def py_truediv_def)
  have c: "cycle_time \<lparr>cycle_time = None, sim_step = 1, duration = None,
                        env_step_counter = 0\<rparr> = None"
    by simp
  from is_save_step_without_cycle_time [OF i c] i show ?thesis by blast
qed

end
